theory Spec2Isabelle
  imports Main "HOL-Library.Sublist"
begin

section \<open>JavaScript primitives used by regenerateVisitor.js\<close>

text \<open>
  Lines are JavaScript strings, modelled as \<open>string\<close>. The functions below follow the
  ECMAScript definitions of \<open>String.prototype.includes\<close> (\<open>str_includes\<close> here),
  \<open>indexOf\<close>, \<open>substring\<close>, \<open>split('\n')\<close>, \<open>Array.prototype.join('\n')\<close>, \<open>slice\<close> and \<open>splice\<close>, including
  their clamping of out-of-range arguments.
\<close>

fun str_includes :: "string \<Rightarrow> string \<Rightarrow> bool" where
  "str_includes [] pat = (pat = [])"
| "str_includes (c # cs) pat = (prefix pat (c # cs) \<or> str_includes cs pat)"

text \<open>\<open>indexOf\<close> gives the position of the first occurrence, or \<open>-1\<close>.\<close>

fun indexOf :: "string \<Rightarrow> string \<Rightarrow> int" where
  "indexOf [] pat = (if pat = [] then 0 else - 1)"
| "indexOf (c # cs) pat =
     (if prefix pat (c # cs) then 0
      else (let r = indexOf cs pat in if r < 0 then - 1 else r + 1))"

text \<open>
  \<open>substring(start, end)\<close>: both arguments are clamped to \<open>[0, length]\<close> and swapped
  when \<open>start > end\<close>.
\<close>

definition substring :: "string \<Rightarrow> int \<Rightarrow> int \<Rightarrow> string" where
  "substring s indexStart indexEnd =
     (let len = int (length s);
          finalStart = min (max indexStart 0) len;
          finalEnd = min (max indexEnd 0) len;
          lo = min finalStart finalEnd;
          hi = max finalStart finalEnd
      in take (nat (hi - lo)) (drop (nat lo) s))"

text \<open>
  \<open>slice(start, end)\<close> on an array: a negative argument counts from the end, and both
  are clamped to \<open>[0, length]\<close>.
\<close>

definition slice :: "'a list \<Rightarrow> int \<Rightarrow> int \<Rightarrow> 'a list" where
  "slice xs indexStart indexEnd =
     (let len = int (length xs);
          k = (if indexStart < 0 then max (len + indexStart) 0 else min indexStart len);
          final = (if indexEnd < 0 then max (len + indexEnd) 0 else min indexEnd len)
      in take (nat (final - k)) (drop (nat k) xs))"

text \<open>
  \<open>splice(start, deleteCount, ...items)\<close> for a non-negative \<open>start\<close>: \<open>take\<close> and
  \<open>drop\<close> clamp at the end of the array as \<open>splice\<close> does.
\<close>

definition splice :: "'a list \<Rightarrow> nat \<Rightarrow> nat \<Rightarrow> 'a list \<Rightarrow> 'a list" where
  "splice xs start deleteCount items =
     take start xs @ items @ drop (start + deleteCount) xs"

definition newline :: char where
  "newline = CHR 0x0A"

fun split_newline :: "string \<Rightarrow> string list" where
  "split_newline [] = [[]]"
| "split_newline (c # cs) =
     (if c = newline then [] # split_newline cs
      else (case split_newline cs of
              [] \<Rightarrow> [[c]]
            | l # ls \<Rightarrow> (c # l) # ls))"

fun join_newline :: "string list \<Rightarrow> string" where
  "join_newline [] = []"
| "join_newline [l] = l"
| "join_newline (l # m # ls) = l @ newline # join_newline (m # ls)"

subsection \<open>Map and Set\<close>

text \<open>
  A JavaScript \<open>Map\<close> keeps its entries in insertion order with unique keys: an
  association list. \<open>set\<close> on a present key replaces the value in place, on a new key
  it appends the entry.
\<close>

type_synonym ('k, 'v) jsmap = "('k \<times> 'v) list"

fun map_set :: "'k \<Rightarrow> 'v \<Rightarrow> ('k, 'v) jsmap \<Rightarrow> ('k, 'v) jsmap" where
  "map_set k v [] = [(k, v)]"
| "map_set k v ((k', v') # m) =
     (if k' = k then (k, v) # m else (k', v') # map_set k v m)"

fun map_get :: "('k, 'v) jsmap \<Rightarrow> 'k \<Rightarrow> 'v option" where
  "map_get [] k = None"
| "map_get ((k', v') # m) k = (if k' = k then Some v' else map_get m k)"

definition map_has :: "('k, 'v) jsmap \<Rightarrow> 'k \<Rightarrow> bool" where
  "map_has m k = (map_get m k \<noteq> None)"

definition map_size :: "('k, 'v) jsmap \<Rightarrow> nat" where
  "map_size m = length m"

definition map_keys :: "('k, 'v) jsmap \<Rightarrow> 'k list" where
  "map_keys m = map fst m"

text \<open>A \<open>Set\<close> keeps its members in insertion order without duplicates.\<close>

definition set_add :: "'a \<Rightarrow> 'a list \<Rightarrow> 'a list" where
  "set_add x s = (if x \<in> set s then s else s @ [x])"

definition new_Set :: "'a list \<Rightarrow> 'a list" where
  "new_Set xs = fold set_add xs []"

section \<open>The visitor objects\<close>

text \<open>
  \<open>{ lines: [], functions: new Map() }\<close> in regenerateVisitor.js; the second variant
  of the tool adds \<open>imports: new Set()\<close>. The fields \<open>functions\<close> and \<open>imports\<close>
  are named \<open>functionMap\<close> and \<open>importSet\<close> here, both source names being reserved
  words of the theory language.
\<close>

record visitor =
  lines :: "string list"
  functionMap :: "(string, string list) jsmap"

record visitor_imports = visitor +
  importSet :: "string list"

definition new_visitor :: visitor where
  "new_visitor = \<lparr>lines = [], functionMap = []\<rparr>"

definition new_visitor_imports :: visitor_imports where
  "new_visitor_imports = \<lparr>lines = [], functionMap = [], importSet = []\<rparr>"

text \<open>
  The failures of the merge: the TypeError thrown on \<open>undefined.includes\<close>, and the
  errors \<open>Could not parse visitor lines\<close> and \<open>Could not generate new visitor file\<close>
  that the callbacks of \<open>fs.readFile\<close> and \<open>fs.writeFile\<close> pass on.
\<close>

datatype error =
    TypeError
  | CouldNotParseVisitorLines
  | CouldNotGenerateVisitorFile

section \<open>Stub extraction\<close>

definition functionMarker :: string where
  "functionMarker = ''function(ctx)''"

text \<open>\<open>line.substring(0, line.indexOf('=') - 1)\<close>\<close>

definition functionName :: "string \<Rightarrow> string" where
  "functionName line = substring line 0 (indexOf line ''='' - 1)"

text \<open>
  The \<open>do ... while (numBraces > 0)\<close> loop of \<open>getFunctionBody\<close>. Reading
  \<open>visitor.lines[currentIndex]\<close> at or past the end gives \<open>undefined\<close>, and
  \<open>undefined.includes\<close> throws a TypeError.
\<close>

function getFunctionBody_loop ::
  "string list \<Rightarrow> nat \<Rightarrow> string list \<Rightarrow> int \<Rightarrow> error + string list" where
  "getFunctionBody_loop ls currentIndex functionBody numBraces =
     (if currentIndex < length ls then
        (let line = ls ! currentIndex;
             functionBody' = functionBody @ [line];
             n1 = (if str_includes line ''{'' then numBraces + 1 else numBraces);
             n2 = (if str_includes line ''}'' then n1 - 1 else n1)
         in if n2 > 0 then getFunctionBody_loop ls (currentIndex + 1) functionBody' n2
            else Inr (slice functionBody' 1 (- 1)))
      else Inl TypeError)"
  by pat_completeness auto
termination
  by (relation "measure (\<lambda>(ls, i, b, n). length ls - i)") auto

declare getFunctionBody_loop.simps [simp del]

definition getFunctionBody :: "'a visitor_scheme \<Rightarrow> nat \<Rightarrow> error + string list" where
  "getFunctionBody visitor currentIndex =
     getFunctionBody_loop (lines visitor) currentIndex [] 0"

text \<open>
  \<open>async.eachOfSeries(visitor.lines, ...)\<close>: the lines are visited in index order.
  \<open>getFunctionBody\<close> never passes an error to its callback, so the branch
  \<open>Could not obtain function body\<close> is never taken; its throw is not caught and ends
  the traversal as it is.
\<close>

fun populateVisitorFunctions_each ::
  "'a visitor_scheme \<Rightarrow> nat list \<Rightarrow> error + 'a visitor_scheme" where
  "populateVisitorFunctions_each visitor [] = Inr visitor"
| "populateVisitorFunctions_each visitor (currentIndex # rest) =
     (let line = lines visitor ! currentIndex in
      if str_includes line functionMarker then
        (let name = functionName line in
         case getFunctionBody visitor currentIndex of
           Inl err \<Rightarrow> Inl err
         | Inr functionBody \<Rightarrow>
             populateVisitorFunctions_each
               (visitor\<lparr>functionMap := map_set name functionBody (functionMap visitor)\<rparr>) rest)
      else populateVisitorFunctions_each visitor rest)"

definition populateVisitorFunctions :: "'a visitor_scheme \<Rightarrow> error + 'a visitor_scheme" where
  "populateVisitorFunctions visitor =
     populateVisitorFunctions_each visitor [0..<length (lines visitor)]"

section \<open>The file system and the console\<close>

text \<open>
  The part of the world the merge touches: the text of each file, the paths whose
  \<open>fs.writeFile\<close> fails, the paths written so far and the lines logged so far.
\<close>

record world =
  fileContents :: "string \<rightharpoonup> string"
  writeFails :: "string \<Rightarrow> bool"
  written :: "string list"
  console :: "string list"

definition console_log :: "string \<Rightarrow> world \<Rightarrow> world" where
  "console_log msg w = w\<lparr>console := console w @ [msg]\<rparr>"

text \<open>\<open>for (line of data.toString().split('\n')) visitor.lines.push(line)\<close>\<close>

definition parseVisitorLines :: "string \<Rightarrow> 'a visitor_scheme \<Rightarrow> 'a visitor_scheme" where
  "parseVisitorLines data visitor = visitor\<lparr>lines := lines visitor @ split_newline data\<rparr>"

definition parseVisitor :: "string \<Rightarrow> visitor \<Rightarrow> world \<Rightarrow> error + visitor" where
  "parseVisitor file visitor w =
     (case fileContents w file of
        None \<Rightarrow> Inl CouldNotParseVisitorLines
      | Some data \<Rightarrow> populateVisitorFunctions (parseVisitorLines data visitor))"

section \<open>The structural differ\<close>

text \<open>\<open>array[index]\<close>: \<open>undefined\<close> (here \<open>None\<close>) at or past the end.\<close>

definition array_get :: "'a list \<Rightarrow> nat \<Rightarrow> 'a option" where
  "array_get xs index = (if index < length xs then Some (xs ! index) else None)"

text \<open>
  The inner loop of \<open>equalVisitors\<close>, over \<open>functionBody.entries()\<close>: whether some
  \<open>line !== other[index]\<close>. A string is never \<open>===\<close> to \<open>undefined\<close>.
\<close>

fun bodyDiffers :: "string list \<Rightarrow> nat list \<Rightarrow> string list \<Rightarrow> bool" where
  "bodyDiffers functionBody [] other = False"
| "bodyDiffers functionBody (index # rest) other =
     (if Some (functionBody ! index) \<noteq> array_get other index then True
      else bodyDiffers functionBody rest other)"

text \<open>The outer loop, over \<open>v0.functions.entries()\<close>.\<close>

fun equalVisitors_entries ::
  "(string, string list) jsmap \<Rightarrow> (string, string list) jsmap \<Rightarrow> bool" where
  "equalVisitors_entries [] f1 = True"
| "equalVisitors_entries ((name, functionBody) # rest) f1 =
     (case map_get f1 name of
        None \<Rightarrow> False
      | Some other \<Rightarrow>
          if bodyDiffers functionBody [0..<length functionBody] other then False
          else equalVisitors_entries rest f1)"

definition equalVisitors :: "'a visitor_scheme \<Rightarrow> 'b visitor_scheme \<Rightarrow> bool" where
  "equalVisitors v0 v1 =
     (if map_size (functionMap v0) \<noteq> map_size (functionMap v1) then False
      else equalVisitors_entries (functionMap v0) (functionMap v1))"

section \<open>The merge resolver\<close>

text \<open>
  \<open>mergedFunctionBody\<close> is the generated body unless the old visitor has the name, and
  then it is \<open>oldVisitor.functions.get(functionName)\<close>.
\<close>

definition mergedBody ::
  "(string, string list) jsmap \<Rightarrow> string \<Rightarrow> string list \<Rightarrow> string list" where
  "mergedBody oldFunctions name functionBody =
     (case map_get oldFunctions name of
        Some oldBody \<Rightarrow> oldBody
      | None \<Rightarrow> functionBody)"

definition mergeFunctions ::
  "'a visitor_scheme \<Rightarrow> 'b visitor_scheme \<Rightarrow> 'c visitor_scheme \<Rightarrow> 'c visitor_scheme" where
  "mergeFunctions oldVisitor visitor mergedVisitor =
     mergedVisitor\<lparr>functionMap :=
       fold (\<lambda>(name, functionBody) m.
               map_set name (mergedBody (functionMap oldVisitor) name functionBody) m)
            (functionMap visitor) (functionMap mergedVisitor)\<rparr>"

section \<open>The serializer\<close>

text \<open>
  The items \<open>[i + 1, 0].concat(mergedFunctionBody)\<close> hands to \<open>splice\<close>. When the map has
  no entry for the name, \<open>concat(undefined)\<close> appends the single element \<open>undefined\<close>,
  which \<open>join\<close> later prints as the empty string; it stands here as the empty line. No
  line inserted this way is read again by the loop.
\<close>

definition spliceItems :: "string list option \<Rightarrow> string list" where
  "spliceItems mergedFunctionBody =
     (case mergedFunctionBody of Some body \<Rightarrow> body | None \<Rightarrow> [[]])"

definition mergeLines_step ::
  "(string, string list) jsmap \<Rightarrow> nat \<Rightarrow> string list \<Rightarrow> string list" where
  "mergeLines_step fs i ls =
     (let currentLine = ls ! i in
      if str_includes currentLine functionMarker then
        (let name = functionName currentLine;
             mergedFunctionBody = map_get fs name;
             ls' = splice ls (i + 1) 1 []
         in splice ls' (i + 1) 0 (spliceItems mergedFunctionBody))
      else ls)"

text \<open>
  \<open>for (let i = length - 1; i >= 0; i--)\<close>: the first argument is \<open>i + 1\<close>. Every
  splice is at \<open>i + 1\<close>, so index \<open>i\<close> stays inside the array.
\<close>

fun mergeLines_loop ::
  "(string, string list) jsmap \<Rightarrow> nat \<Rightarrow> string list \<Rightarrow> string list" where
  "mergeLines_loop fs 0 ls = ls"
| "mergeLines_loop fs (Suc i) ls = mergeLines_loop fs i (mergeLines_step fs i ls)"

definition mergeLines :: "'a visitor_scheme \<Rightarrow> 'b visitor_scheme \<Rightarrow> 'b visitor_scheme" where
  "mergeLines visitor mergedVisitor =
     (let ls = lines mergedVisitor @ lines visitor
      in mergedVisitor\<lparr>lines := mergeLines_loop (functionMap mergedVisitor) (length ls) ls\<rparr>)"

definition generateVisitorFile ::
  "string \<Rightarrow> 'a visitor_scheme \<Rightarrow> world \<Rightarrow> error option \<times> world" where
  "generateVisitorFile visitorFile mergedVisitor w =
     (if writeFails w visitorFile then (Some CouldNotGenerateVisitorFile, w)
      else (None,
            console_log (''Generated new visitor file: '' @ visitorFile)
              (w\<lparr>fileContents :=
                    (fileContents w)(visitorFile \<mapsto> join_newline (lines mergedVisitor)),
                  written := written w @ [visitorFile]\<rparr>)))"

section \<open>The orchestration of the merge\<close>

definition mergeAndGenerateIfDifferent ::
  "string \<Rightarrow> visitor \<Rightarrow> visitor \<Rightarrow> visitor \<Rightarrow> world \<Rightarrow> error option \<times> visitor \<times> world" where
  "mergeAndGenerateIfDifferent visitorFile oldVisitor visitor mergedVisitor w =
     (if equalVisitors oldVisitor visitor then
        (None, mergedVisitor,
         console_log ''No difference between old visitor and new visitor. Skipping merge...'' w)
      else
        (let w1 = console_log ''Merging old visitor and new visitor'' w;
             m1 = mergeFunctions oldVisitor visitor mergedVisitor;
             m2 = mergeLines visitor m1;
             (err, w2) = generateVisitorFile visitorFile m2 w1
         in (err, m2, w2)))"

definition mergeOldVisitorContentsIfDifferent ::
  "string \<Rightarrow> world \<Rightarrow> error option \<times> world" where
  "mergeOldVisitorContentsIfDifferent visitorFile w =
     (let oldVisitorFile = visitorFile @ ''.old'' in
      case parseVisitor oldVisitorFile new_visitor w of
        Inl err \<Rightarrow> (Some err, w)
      | Inr oldVisitor \<Rightarrow>
          (case parseVisitor visitorFile new_visitor w of
             Inl err \<Rightarrow> (Some err, w)
           | Inr visitor \<Rightarrow>
               (case mergeAndGenerateIfDifferent visitorFile oldVisitor visitor new_visitor w of
                  (err, mergedVisitor, w') \<Rightarrow> (err, w'))))"

section \<open>Imports, in the second variant of the tool\<close>

definition requireMarker :: string where
  "requireMarker = ''require(''"

text \<open>
  \<open>async.filter\<close> keeps the lines holding the marker, in order, and each is added to
  the set.
\<close>

definition populateVisitorImports :: "'a visitor_imports_scheme \<Rightarrow> 'a visitor_imports_scheme" where
  "populateVisitorImports visitor =
     (let importLines = filter (\<lambda>line. str_includes line requireMarker) (lines visitor)
      in visitor\<lparr>importSet := fold set_add importLines (importSet visitor)\<rparr>)"

definition mergeImports ::
  "'a visitor_imports_scheme \<Rightarrow> 'b visitor_imports_scheme \<Rightarrow> 'c visitor_imports_scheme
     \<Rightarrow> 'c visitor_imports_scheme" where
  "mergeImports oldVisitor visitor mergedVisitor =
     mergedVisitor\<lparr>importSet := fold set_add (importSet visitor) (new_Set (importSet oldVisitor))\<rparr>"

text \<open>
  \<open>mergeLines\<close> of the second variant: before the stub loop, the line at index 2 is
  replaced by the merged import lines.
\<close>

definition mergeLines_imports ::
  "'a visitor_scheme \<Rightarrow> 'b visitor_imports_scheme \<Rightarrow> 'b visitor_imports_scheme" where
  "mergeLines_imports visitor mergedVisitor =
     (let ls = lines mergedVisitor @ lines visitor;
          ls' = splice ls 2 1 (importSet mergedVisitor)
      in mergedVisitor\<lparr>lines := mergeLines_loop (functionMap mergedVisitor) (length ls') ls'\<rparr>)"

text \<open>
  \<open>equalVisitors\<close> of the second variant. \<open>v0.lines.size\<close> and \<open>v1.lines.size\<close> are both
  \<open>undefined\<close>, so the first test never returns. The loop destructures each line of
  \<open>v0.lines\<close>, a string, into its first two characters \<open>index\<close> and \<open>line\<close>
  (\<open>undefined\<close> where the string is too short), and compares \<open>line\<close> loosely with
  \<open>v1.lines[index]\<close>, which is an element only when \<open>index\<close> is a digit below the length.
\<close>

definition digitIndex :: "char \<Rightarrow> nat option" where
  "digitIndex c =
     (let code = (of_char c :: nat)
      in if 48 \<le> code \<and> code \<le> 57 then Some (code - 48) else None)"

definition lineDiffers_second :: "string \<Rightarrow> string list \<Rightarrow> bool" where
  "lineDiffers_second entry otherLines =
     (let index = array_get entry 0;
          line = array_get entry 1;
          other = (case index of
                     None \<Rightarrow> None
                   | Some c \<Rightarrow>
                       (case digitIndex c of
                          None \<Rightarrow> None
                        | Some k \<Rightarrow> array_get otherLines k))
      in case (line, other) of
           (None, None) \<Rightarrow> False
         | (Some c, Some t) \<Rightarrow> [c] \<noteq> t
         | _ \<Rightarrow> True)"

fun equalVisitors_second_loop :: "string list \<Rightarrow> string list \<Rightarrow> bool" where
  "equalVisitors_second_loop [] otherLines = True"
| "equalVisitors_second_loop (entry # rest) otherLines =
     (if lineDiffers_second entry otherLines then False
      else equalVisitors_second_loop rest otherLines)"

definition equalVisitors_second :: "'a visitor_scheme \<Rightarrow> 'b visitor_scheme \<Rightarrow> bool" where
  "equalVisitors_second v0 v1 = equalVisitors_second_loop (lines v0) (lines v1)"

definition mergeAndGenerateIfDifferent_second ::
  "string \<Rightarrow> visitor_imports \<Rightarrow> visitor_imports \<Rightarrow> visitor_imports \<Rightarrow> world
     \<Rightarrow> error option \<times> visitor_imports \<times> world" where
  "mergeAndGenerateIfDifferent_second visitorFile oldVisitor visitor mergedVisitor w =
     (if equalVisitors_second oldVisitor visitor then
        (None, mergedVisitor,
         console_log ''No difference between old visitor and new visitor. Skipping merge...'' w)
      else
        (let w1 = console_log ''Merging old visitor and new visitor'' w;
             m1 = mergeFunctions oldVisitor visitor mergedVisitor;
             m2 = mergeImports oldVisitor visitor m1;
             m3 = mergeLines_imports visitor m2;
             (err, w2) = generateVisitorFile visitorFile m3 w1
         in (err, m3, w2)))"

section \<open>Closed forms of the scans\<close>




text \<open>
  The serializer as a forward traversal: after a declaring line come the items spliced
  in for its name, and the rest of the file without its first line.
\<close>

fun spliceBodies :: "(string, string list) jsmap \<Rightarrow> string list \<Rightarrow> string list" where
  "spliceBodies fs [] = []"
| "spliceBodies fs (line # rest) =
     (if str_includes line functionMarker
      then line # spliceItems (map_get fs (functionName line)) @ drop 1 (spliceBodies fs rest)
      else line # spliceBodies fs rest)"

section \<open>The extractor and the serializer in the specification's words\<close>

text \<open>
  The specification counts every occurrence of a brace: the depth after the characters
  of a line, and whether it has been positive so far.
\<close>

fun countBraces_spec :: "string \<Rightarrow> int \<Rightarrow> bool \<Rightarrow> int \<times> bool" where
  "countBraces_spec [] depth positive = (depth, positive)"
| "countBraces_spec (c # cs) depth positive =
     (let depth' = (if c = CHR ''{'' then depth + 1
                    else if c = CHR ''}'' then depth - 1 else depth)
      in countBraces_spec cs depth' (positive \<or> 0 < depth'))"

text \<open>
  The scanned span: the lines up to the first one where the depth is back at zero after
  having been positive; none when the lines end first.
\<close>

fun scanSpan_spec :: "string list \<Rightarrow> int \<Rightarrow> bool \<Rightarrow> string list \<Rightarrow> string list option" where
  "scanSpan_spec [] depth positive span = None"
| "scanSpan_spec (line # rest) depth positive span =
     (case countBraces_spec line depth positive of
        (depth', positive') \<Rightarrow>
          if depth' = 0 \<and> positive' then Some (span @ [line])
          else scanSpan_spec rest depth' positive' (span @ [line]))"


text \<open>
  The specification's serializer removes, after a declaring line, the lines down to the
  matching closing line, and puts the merged body there. \<open>closingToo\<close> says whether the
  closing line itself goes.
\<close>

definition replaceSpan_spec ::
  "bool \<Rightarrow> (string, string list) jsmap \<Rightarrow> nat \<Rightarrow> string list \<Rightarrow> string list" where
  "replaceSpan_spec closingToo fs i ls =
     (let currentLine = ls ! i in
      if str_includes currentLine functionMarker then
        (case scanSpan_spec (drop i ls) 0 False [] of
           None \<Rightarrow> ls
         | Some span \<Rightarrow>
             splice ls (i + 1) (if closingToo then length span - 1 else length span - 2)
               (spliceItems (map_get fs (functionName currentLine))))
      else ls)"

fun serialize_spec_loop ::
  "bool \<Rightarrow> (string, string list) jsmap \<Rightarrow> nat \<Rightarrow> string list \<Rightarrow> string list" where
  "serialize_spec_loop closingToo fs 0 ls = ls"
| "serialize_spec_loop closingToo fs (Suc i) ls =
     serialize_spec_loop closingToo fs i (replaceSpan_spec closingToo fs i ls)"

definition serialize_spec ::
  "bool \<Rightarrow> 'a visitor_scheme \<Rightarrow> 'b visitor_scheme \<Rightarrow> string list" where
  "serialize_spec closingToo visitor mergedVisitor =
     serialize_spec_loop closingToo (functionMap mergedVisitor)
       (length (lines visitor)) (lines visitor)"

section \<open>Example visitors\<close>

text \<open>
  An edited visitor with two stubs and one stub of a rule that the grammar has since
  lost, and a regenerated visitor with a stub for a new rule.
\<close>

definition example_old :: visitor where
  "example_old =
     \<lparr>lines = [],
      functionMap = [(''visitExpr'', [''return 1;'']), (''visitStmt'', [''return 2;'']),
                     (''visitGone'', [''return 3;''])]\<rparr>"

definition example_new :: visitor where
  "example_new =
     \<lparr>lines = [],
      functionMap = [(''visitExpr'', [''return null;'']), (''visitStmt'', [''return null;'']),
                     (''visitBlock'', [''return null;''])]\<rparr>"

text \<open>
  An edited file whose stub body was emptied, and the regenerated file with the
  generated body.
\<close>

definition emptied_old_lines :: "string list" where
  "emptied_old_lines = [''V.prototype.visitExpr = function(ctx) {'', ''};'']"

definition emptied_new_lines :: "string list" where
  "emptied_new_lines =
     [''V.prototype.visitExpr = function(ctx) {'',
      ''  return this.visitChildren(ctx);'',
      ''};'']"

definition emptied_world :: world where
  "emptied_world =
     \<lparr>fileContents = [''V.js.old'' \<mapsto> join_newline emptied_old_lines,
                       ''V.js'' \<mapsto> join_newline emptied_new_lines],
      writeFails = (\<lambda>path. False), written = [], console = []\<rparr>"



text \<open>A regenerated stub with a body of two lines, and a merged body of one line.\<close>

definition twoline_visitor :: visitor where
  "twoline_visitor =
     \<lparr>lines = [''V.prototype.visitExpr = function(ctx) {'', ''  a();'', ''  b();'', ''};''],
      functionMap = [(''V.prototype.visitExpr'', [''  a();'', ''  b();''])]\<rparr>"

definition twoline_merged :: visitor where
  "twoline_merged = \<lparr>lines = [], functionMap = [(''V.prototype.visitExpr'', [''  x();''])]\<rparr>"

text \<open>Two function literals passed as arguments, with no assignment on their lines.\<close>

definition keyless_lines :: "string list" where
  "keyless_lines =
     [''first(function(ctx) {'', ''  a();'', ''});'',
      ''second(function(ctx) {'', ''  b();'', ''});'']"

text \<open>
  An edited file that differs from the regenerated one outside the stub bodies only.
\<close>

definition unchanged_world :: world where
  "unchanged_world =
     \<lparr>fileContents = [''V.js.old'' \<mapsto> join_newline (''// reviewed'' # emptied_new_lines),
                       ''V.js'' \<mapsto> join_newline emptied_new_lines],
      writeFails = (\<lambda>path. False), written = [], console = []\<rparr>"

definition unchanged_old :: visitor where
  "unchanged_old =
     \<lparr>lines = ''// reviewed'' # emptied_new_lines,
      functionMap = [(''V.prototype.visitExpr'', [''  return this.visitChildren(ctx);''])]\<rparr>"

definition unchanged_new :: visitor where
  "unchanged_new =
     \<lparr>lines = emptied_new_lines,
      functionMap = [(''V.prototype.visitExpr'', [''  return this.visitChildren(ctx);''])]\<rparr>"

definition digit_visitor :: visitor_imports where
  "digit_visitor = \<lparr>lines = [''0''], functionMap = [], importSet = []\<rparr>"


section \<open>Facts about Map and Set\<close>

lemma map_get_map_set:
  "map_get (map_set k v m) k' = (if k' = k then Some v else map_get m k')"
  by (induction m) auto

lemma map_get_map_of: "map_get m k = map_of m k"
  by (induction m) auto

lemma map_keys_map_set_list:
  "map_keys (map_set k v m) = (if k \<in> set (map_keys m) then map_keys m else map_keys m @ [k])"
  by (induction m) (force simp: map_keys_def)+

lemma map_keys_map_set:
  "set (map_keys (map_set k v m)) = insert k (set (map_keys m))"
  by (auto simp: map_keys_map_set_list)

lemma map_get_None_iff: "map_get m k = None \<longleftrightarrow> k \<notin> set (map_keys m)"
  by (simp add: map_get_map_of map_of_eq_None_iff map_keys_def)

lemma map_has_iff: "map_has m k \<longleftrightarrow> k \<in> set (map_keys m)"
  by (simp add: map_has_def map_get_None_iff)

lemma distinct_map_set:
  "distinct (map_keys m) \<Longrightarrow> distinct (map_keys (map_set k v m))"
  by (simp add: map_keys_map_set_list)

lemma map_get_Some_mem: "map_get m k = Some v \<Longrightarrow> (k, v) \<in> set m"
  by (simp add: map_get_map_of map_of_SomeD)

lemma map_get_distinct_mem:
  "distinct (map_keys m) \<Longrightarrow> (k, v) \<in> set m \<Longrightarrow> map_get m k = Some v"
  by (simp add: map_get_map_of map_keys_def)

section \<open>The merge resolver: preservation and adoption\<close>

text \<open>The loop of \<open>mergeFunctions\<close> over the entries of the new visitor.\<close>

lemma fold_merge_keys:
  "set (map_keys (fold (\<lambda>(name, functionBody) m. map_set name (g name functionBody) m) xs m0))
     = set (map_keys xs) \<union> set (map_keys m0)"
proof (induction xs arbitrary: m0)
  case Nil
  show ?case by (simp add: map_keys_def)
next
  case (Cons p xs)
  obtain n b where p: "p = (n, b)" by (cases p)
  show ?case
    using Cons [of "map_set n (g n b) m0"]
    by (simp add: p map_keys_map_set) (auto simp: map_keys_def)
qed

lemma fold_merge_absent:
  "k \<notin> set (map_keys xs) \<Longrightarrow>
   map_get (fold (\<lambda>(name, functionBody) m. map_set name (g name functionBody) m) xs m0) k
     = map_get m0 k"
proof (induction xs arbitrary: m0)
  case Nil
  show ?case by simp
next
  case (Cons p xs)
  obtain n b where p: "p = (n, b)" by (cases p)
  from Cons.prems p have nk: "n \<noteq> k" and rest: "k \<notin> set (map_keys xs)"
    by (auto simp: map_keys_def)
  show ?case
    using Cons.IH [OF rest, of "map_set n (g n b) m0"] nk
    by (simp add: p map_get_map_set)
qed

lemma fold_merge_present:
  "(k, b) \<in> set xs \<Longrightarrow> distinct (map_keys xs) \<Longrightarrow>
   map_get (fold (\<lambda>(name, functionBody) m. map_set name (g name functionBody) m) xs m0) k
     = Some (g k b)"
proof (induction xs arbitrary: m0)
  case Nil
  then show ?case by simp
next
  case (Cons p xs)
  obtain n c where p: "p = (n, c)" by (cases p)
  show ?case
  proof (cases "(k, b) = (n, c)")
    case True
    with Cons.prems p have "k \<notin> set (map_keys xs)" by (auto simp: map_keys_def)
    from fold_merge_absent [OF this, of g "map_set n (g n c) m0"] True
    show ?thesis by (simp add: p map_get_map_set)
  next
    case False
    with Cons.prems p have mem: "(k, b) \<in> set xs" and d: "distinct (map_keys xs)"
      by (auto simp: map_keys_def)
    from Cons.IH [OF mem d, of "map_set n (g n c) m0"] show ?thesis by (simp add: p)
  qed
qed

lemma fold_merge_constant:
  "k \<in> set (map_keys xs) \<Longrightarrow> (\<And>b. g k b = v) \<Longrightarrow>
   map_get (fold (\<lambda>(name, functionBody) m. map_set name (g name functionBody) m) xs m0) k
     = Some v"
proof (induction xs arbitrary: m0)
  case Nil
  then show ?case by (simp add: map_keys_def)
next
  case (Cons p xs)
  obtain n c where p: "p = (n, c)" by (cases p)
  show ?case
  proof (cases "k \<in> set (map_keys xs)")
    case True
    from Cons.IH [OF True Cons.prems(2), of "map_set n (g n c) m0"]
    show ?thesis by (simp add: p)
  next
    case False
    with Cons.prems(1) p have nk: "n = k" by (auto simp: map_keys_def)
    from fold_merge_absent [OF False, of g "map_set n (g n c) m0"] nk Cons.prems(2) [of c]
    show ?thesis by (simp add: p map_get_map_set)
  qed
qed

text \<open>
  C1 (preservation). A stub name that the old and the new visitor both have is given the
  old visitor's body in the merged visitor, whatever body the new visitor generated for
  it and whatever the merged visitor held before.
\<close>

theorem mergeFunctions_preserves_old_body:
  assumes "map_get (functionMap oldVisitor) name = Some oldBody"
    and "map_has (functionMap visitor) name"
  shows "map_get (functionMap (mergeFunctions oldVisitor visitor mergedVisitor)) name
           = Some oldBody"
proof -
  from assms(2) have k: "name \<in> set (map_keys (functionMap visitor))"
    by (simp add: map_has_iff)
  have g: "\<And>b. mergedBody (functionMap oldVisitor) name b = oldBody"
    using assms(1) by (simp add: mergedBody_def)
  from fold_merge_constant [of name "functionMap visitor"
      "mergedBody (functionMap oldVisitor)" oldBody "functionMap mergedVisitor", OF k g]
  show ?thesis by (simp add: mergeFunctions_def)
qed

theorem mergeFunctions_preserves_old_body_witness:
  "map_get (functionMap (mergeFunctions example_old example_new new_visitor)) ''visitStmt''
     = Some [''return 2;'']"
  by (rule mergeFunctions_preserves_old_body)
    (simp_all add: map_has_def example_old_def example_new_def)

text \<open>
  C2 (adoption of new structure). Merging into a fresh visitor, as the tool does: a stub
  name that only the new visitor has keeps the new visitor's body, and a stub name that
  the new visitor lacks, the old visitor's among them, is absent from the merged map.
  The keys of the new visitor's map are distinct, as the keys of a Map are.
\<close>

theorem mergeFunctions_adopts_new_structure:
  assumes "distinct (map_keys (functionMap visitor))"
  shows "(map_get (functionMap visitor) name = Some newBody
            \<and> \<not> map_has (functionMap oldVisitor) name
          \<longrightarrow> map_get (functionMap (mergeFunctions oldVisitor visitor new_visitor)) name
                = Some newBody)
       \<and> (map_has (functionMap oldVisitor) name \<and> \<not> map_has (functionMap visitor) name
          \<longrightarrow> \<not> map_has (functionMap (mergeFunctions oldVisitor visitor new_visitor)) name)"
proof (intro conjI impI)
  assume a: "map_get (functionMap visitor) name = Some newBody
               \<and> \<not> map_has (functionMap oldVisitor) name"
  then have mem: "(name, newBody) \<in> set (functionMap visitor)"
    by (simp add: map_get_Some_mem)
  from a have "mergedBody (functionMap oldVisitor) name newBody = newBody"
    by (simp add: mergedBody_def map_has_def)
  with fold_merge_present [OF mem assms, of "mergedBody (functionMap oldVisitor)" "[]"]
  show "map_get (functionMap (mergeFunctions oldVisitor visitor new_visitor)) name
          = Some newBody"
    by (simp add: mergeFunctions_def new_visitor_def)
next
  assume "map_has (functionMap oldVisitor) name \<and> \<not> map_has (functionMap visitor) name"
  then have "name \<notin> set (map_keys (functionMap visitor))"
    by (simp add: map_has_iff)
  from fold_merge_absent [OF this, of "mergedBody (functionMap oldVisitor)" "[]"]
  show "\<not> map_has (functionMap (mergeFunctions oldVisitor visitor new_visitor)) name"
    by (simp add: mergeFunctions_def new_visitor_def map_has_def)
qed

theorem mergeFunctions_adopts_new_structure_witness:
  "map_get (functionMap (mergeFunctions example_old example_new new_visitor)) ''visitBlock''
     = Some [''return null;'']
   \<and> \<not> map_has (functionMap (mergeFunctions example_old example_new new_visitor)) ''visitGone''"
proof -
  have d: "distinct (map_keys (functionMap example_new))"
    by (simp add: example_new_def map_keys_def)
  from mergeFunctions_adopts_new_structure [OF d, of "''visitBlock''" "[''return null;'']" example_old]
  have a: "map_get (functionMap (mergeFunctions example_old example_new new_visitor)) ''visitBlock''
             = Some [''return null;'']"
    by (simp add: example_old_def example_new_def map_has_def)
  from mergeFunctions_adopts_new_structure [OF d, of "''visitGone''" "[]" example_old]
  have b: "\<not> map_has (functionMap (mergeFunctions example_old example_new new_visitor)) ''visitGone''"
    by (simp add: example_old_def example_new_def map_has_def)
  from a b show ?thesis by simp
qed

section \<open>What the differ compares\<close>

lemma bodyDiffers_iff:
  "bodyDiffers functionBody indices other
     \<longleftrightarrow> (\<exists>i \<in> set indices. Some (functionBody ! i) \<noteq> array_get other i)"
  by (induction indices) auto

lemma bodyDiffers_prefix:
  "bodyDiffers functionBody [0..<length functionBody] other \<longleftrightarrow> \<not> prefix functionBody other"
proof -
  have "prefix functionBody other
          \<longleftrightarrow> (\<forall>i < length functionBody. i < length other \<and> functionBody ! i = other ! i)"
  proof
    assume "prefix functionBody other"
    then obtain zs where "other = functionBody @ zs" by (auto simp: prefix_def)
    then show "\<forall>i < length functionBody. i < length other \<and> functionBody ! i = other ! i"
      by (simp add: nth_append)
  next
    assume a: "\<forall>i < length functionBody. i < length other \<and> functionBody ! i = other ! i"
    have le: "length functionBody \<le> length other"
    proof (cases functionBody rule: rev_cases)
      case Nil
      then show ?thesis by simp
    next
      case (snoc ys y)
      with a have "length ys < length other" by simp
      with snoc show ?thesis by simp
    qed
    have "take (length functionBody) other = functionBody"
      by (rule nth_equalityI) (use a le in auto)
    then show "prefix functionBody other"
      by (metis take_is_prefix)
  qed
  then show ?thesis
    by (auto simp: bodyDiffers_iff array_get_def)
qed

lemma equalVisitors_entries_iff:
  "equalVisitors_entries f0 f1
     \<longleftrightarrow> list_all (\<lambda>(name, functionBody).
            case map_get f1 name of None \<Rightarrow> False | Some other \<Rightarrow> prefix functionBody other) f0"
proof (induction f0)
  case Nil
  show ?case by simp
next
  case (Cons p f0)
  obtain n b where p: "p = (n, b)" by (cases p)
  show ?case
    using Cons by (cases "map_get f1 n") (auto simp: p bodyDiffers_prefix)
qed

text \<open>
  C3. The differ does not compare the lengths of two bodies: it walks the first
  visitor's body only, so a body of the second visitor that continues past the end of
  the first is accepted. Here the old file's stub has an empty body and the regenerated
  file's stub has the generated line; both files parse, and the visitors are reported
  equal, so that the tool skips the merge.
\<close>

theorem equalVisitors_ignores_longer_body:
  "parseVisitor ''V.js.old'' new_visitor emptied_world
     = Inr \<lparr>lines = emptied_old_lines, functionMap = [(''V.prototype.visitExpr'', [])]\<rparr>
   \<and> parseVisitor ''V.js'' new_visitor emptied_world
     = Inr \<lparr>lines = emptied_new_lines,
            functionMap = [(''V.prototype.visitExpr'', [''  return this.visitChildren(ctx);''])]\<rparr>
   \<and> equalVisitors
        \<lparr>lines = emptied_old_lines, functionMap = [(''V.prototype.visitExpr'', [])]\<rparr>
        \<lparr>lines = emptied_new_lines,
         functionMap = [(''V.prototype.visitExpr'', [''  return this.visitChildren(ctx);''])]\<rparr>
   \<and> fst (mergeOldVisitorContentsIfDifferent ''V.js'' emptied_world) = None
   \<and> written (snd (mergeOldVisitorContentsIfDifferent ''V.js'' emptied_world)) = []"
proof -
  have a: "parseVisitor ''V.js.old'' new_visitor emptied_world
     = Inr \<lparr>lines = emptied_old_lines, functionMap = [(''V.prototype.visitExpr'', [])]\<rparr>"
    by code_simp
  have b: "parseVisitor ''V.js'' new_visitor emptied_world
     = Inr \<lparr>lines = emptied_new_lines,
            functionMap = [(''V.prototype.visitExpr'', [''  return this.visitChildren(ctx);''])]\<rparr>"
    by code_simp
  have c: "equalVisitors
        \<lparr>lines = emptied_old_lines, functionMap = [(''V.prototype.visitExpr'', [])]\<rparr>
        \<lparr>lines = emptied_new_lines,
         functionMap = [(''V.prototype.visitExpr'', [''  return this.visitChildren(ctx);''])]\<rparr>"
    by code_simp
  have d: "mergeOldVisitorContentsIfDifferent ''V.js'' emptied_world
     = (None, console_log
         ''No difference between old visitor and new visitor. Skipping merge...'' emptied_world)"
    by (simp add: mergeOldVisitorContentsIfDifferent_def a b c mergeAndGenerateIfDifferent_def)
  have e: "written emptied_world = []"
    by (simp add: emptied_world_def)
  from a b c d e show ?thesis
    by (simp add: console_log_def)
qed

section \<open>Stub names\<close>


lemma indexOf_char_absent: "c \<notin> set s \<Longrightarrow> indexOf s [c] = - 1"
  by (induction s) auto

lemma indexOf_char_first: "c \<notin> set pre \<Longrightarrow> indexOf (pre @ c # rest) [c] = int (length pre)"
  by (induction pre) (auto simp: Let_def)

lemma substring_0: "substring s 0 k = take (nat k) s"
  by (auto simp: substring_def Let_def min_def max_def)

lemma functionName_first_equals:
  "CHR ''='' \<notin> set pre \<Longrightarrow> functionName (pre @ CHR ''='' # rest) = take (length pre - 1) pre"
  by (simp add: functionName_def indexOf_char_first substring_0 nat_diff_distrib')

lemma functionName_no_equals: "CHR ''='' \<notin> set line \<Longrightarrow> functionName line = []"
  by (simp add: functionName_def indexOf_char_absent substring_0)

lemma getFunctionBody_lines:
  "lines v = lines v' \<Longrightarrow> getFunctionBody v i = getFunctionBody v' i"
  by (simp add: getFunctionBody_def)

lemma populate_each_lines:
  "populateVisitorFunctions_each v is = Inr v' \<Longrightarrow> lines v' = lines v"
  by (induction v "is" rule: populateVisitorFunctions_each.induct)
     (auto simp: Let_def split: if_splits sum.splits)

lemma populate_each_distinct:
  "populateVisitorFunctions_each v is = Inr v' \<Longrightarrow> distinct (map_keys (functionMap v))
     \<Longrightarrow> distinct (map_keys (functionMap v'))"
  by (induction v "is" rule: populateVisitorFunctions_each.induct)
     (auto simp: Let_def distinct_map_set split: if_splits sum.splits)

lemma populate_each_keys:
  "populateVisitorFunctions_each v is = Inr v' \<Longrightarrow>
   set (map_keys (functionMap v')) =
     set (map_keys (functionMap v)) \<union>
     functionName ` {l \<in> (\<lambda>i. lines v ! i) ` set is. str_includes l functionMarker}"
  by (induction v "is" rule: populateVisitorFunctions_each.induct)
     (auto simp: Let_def map_keys_map_set split: if_splits sum.splits)

lemma distinct_keys_filter:
  "distinct (map_keys m) \<Longrightarrow> length (filter (\<lambda>(name, body). name = k) m) \<le> 1"
proof (induction m)
  case Nil
  show ?case by simp
next
  case (Cons p m)
  obtain n b where p: "p = (n, b)" by (cases p)
  show ?case
  proof (cases "n = k")
    case True
    with Cons.prems p have "k \<notin> fst ` set m" by (simp add: map_keys_def)
    then have "filter (\<lambda>(name, body). name = k) m = []"
      by (force simp: filter_empty_conv)
    with True p show ?thesis by simp
  next
    case False
    with Cons p show ?thesis by (simp add: map_keys_def)
  qed
qed

text \<open>
  C10. The derived stub name is the text of the line before the first \<open>=\<close> without its
  last character, leading indentation included; a line with no \<open>=\<close> gives the empty
  name. In the map that extraction builds from a file, at most one entry has the empty
  name, and it is there as soon as one declaring line has no \<open>=\<close>: all such stubs share
  that one key.
\<close>

theorem functionName_before_first_equals:
  "(CHR ''='' \<notin> set pre
      \<longrightarrow> functionName (pre @ CHR ''='' # rest) = take (length pre - 1) pre)
   \<and> (CHR ''='' \<notin> set line \<longrightarrow> functionName line = [])
   \<and> (populateVisitorFunctions (new_visitor\<lparr>lines := ls\<rparr>) = Inr v'
      \<longrightarrow> length (filter (\<lambda>(name, body). name = []) (functionMap v')) \<le> 1
        \<and> (list_ex (\<lambda>l. str_includes l functionMarker \<and> CHR ''='' \<notin> set l) ls
           \<longrightarrow> map_has (functionMap v') []))"
proof (intro conjI impI)
  assume "CHR ''='' \<notin> set pre"
  then show "functionName (pre @ CHR ''='' # rest) = take (length pre - 1) pre"
    by (rule functionName_first_equals)
next
  assume "CHR ''='' \<notin> set line"
  then show "functionName line = []" by (rule functionName_no_equals)
next
  assume a: "populateVisitorFunctions (new_visitor\<lparr>lines := ls\<rparr>) = Inr v'"
  then have e: "populateVisitorFunctions_each (new_visitor\<lparr>lines := ls\<rparr>) [0..<length ls] = Inr v'"
    by (simp add: populateVisitorFunctions_def)
  have "distinct (map_keys (functionMap v'))"
    by (rule populate_each_distinct [OF e]) (simp add: new_visitor_def map_keys_def)
  then show "length (filter (\<lambda>(name, body). name = []) (functionMap v')) \<le> 1"
    by (rule distinct_keys_filter)
next
  assume a: "populateVisitorFunctions (new_visitor\<lparr>lines := ls\<rparr>) = Inr v'"
    and b: "list_ex (\<lambda>l. str_includes l functionMarker \<and> CHR ''='' \<notin> set l) ls"
  from b obtain l where l: "l \<in> set ls" "str_includes l functionMarker" "CHR ''='' \<notin> set l"
    by (auto simp: list_ex_iff)
  have idx: "(\<lambda>i. ls ! i) ` set [0..<length ls] = set ls"
    by (metis map_nth set_map)
  from a have e: "populateVisitorFunctions_each (new_visitor\<lparr>lines := ls\<rparr>) [0..<length ls] = Inr v'"
    by (simp add: populateVisitorFunctions_def)
  from populate_each_keys [OF e] idx
  have "set (map_keys (functionMap v')) =
      functionName ` {l \<in> set ls. str_includes l functionMarker}"
    by (simp add: new_visitor_def map_keys_def)
  moreover from l have "functionName l = []" by (simp add: functionName_no_equals)
  ultimately have "[] \<in> set (map_keys (functionMap v'))"
    using l by force
  then show "map_has (functionMap v') []" by (simp add: map_has_iff)
qed

theorem functionName_before_first_equals_witness:
  "functionName ''V.prototype.visitExpr = function(ctx) {'' = ''V.prototype.visitExpr''
   \<and> functionName ''first(function(ctx) {'' = []
   \<and> populateVisitorFunctions (new_visitor\<lparr>lines := keyless_lines\<rparr>)
       = Inr \<lparr>lines = keyless_lines, functionMap = [([], [''  b();''])]\<rparr>
   \<and> length (filter (\<lambda>(name, body). name = [])
        (functionMap \<lparr>lines = keyless_lines, functionMap = [([], [''  b();''])]\<rparr>)) \<le> 1
   \<and> map_has (functionMap \<lparr>lines = keyless_lines, functionMap = [([], [''  b();''])]\<rparr>) []"
proof -
  have p: "populateVisitorFunctions (new_visitor\<lparr>lines := keyless_lines\<rparr>)
       = Inr \<lparr>lines = keyless_lines, functionMap = [([], [''  b();''])]\<rparr>"
    by code_simp
  have e: "list_ex (\<lambda>l. str_includes l functionMarker \<and> CHR ''='' \<notin> set l) keyless_lines"
    by code_simp
  from functionName_before_first_equals
    [of "''V.prototype.visitExpr ''" "'' function(ctx) {''" "''first(function(ctx) {''" keyless_lines
        "\<lparr>lines = keyless_lines, functionMap = [([], [''  b();''])]\<rparr>"] p e
  show ?thesis by simp
qed

section \<open>The merged import set\<close>

lemma set_fold_set_add: "set (fold set_add xs s) = set xs \<union> set s"
  by (induction xs arbitrary: s) (auto simp: set_add_def)

lemma distinct_fold_set_add: "distinct s \<Longrightarrow> distinct (fold set_add xs s)"
  by (induction xs arbitrary: s) (auto simp: set_add_def)

lemma fold_set_add_members: "set xs \<subseteq> set s \<Longrightarrow> fold set_add xs s = s"
  by (induction xs arbitrary: s) (auto simp: set_add_def)

lemma fold_set_add_distinct: "distinct (s @ xs) \<Longrightarrow> fold set_add xs s = s @ xs"
  by (induction xs arbitrary: s) (auto simp: set_add_def)

lemma new_Set_distinct: "distinct xs \<Longrightarrow> new_Set xs = xs"
  using fold_set_add_distinct [of "[]" xs] by (simp add: new_Set_def)

lemma set_populateVisitorImports:
  "set (importSet (populateVisitorImports v))
     = set (importSet v) \<union> {line \<in> set (lines v). str_includes line requireMarker}"
  by (auto simp: populateVisitorImports_def Let_def set_fold_set_add)

text \<open>
  C6 (import monotonicity). The merged import set holds exactly the members of the old
  and of the new import set, each once, so that it contains both and loses none; and
  merging the merged visitor with itself gives the same import set again, in the same
  order.
\<close>

theorem mergeImports_union_and_stable:
  "set (importSet (mergeImports oldVisitor visitor mergedVisitor))
     = set (importSet oldVisitor) \<union> set (importSet visitor)
   \<and> distinct (importSet (mergeImports oldVisitor visitor mergedVisitor))
   \<and> importSet (mergeImports (mergeImports oldVisitor visitor mergedVisitor)
                   (mergeImports oldVisitor visitor mergedVisitor) mergedVisitor')
       = importSet (mergeImports oldVisitor visitor mergedVisitor)"
proof -
  let ?m = "importSet (mergeImports oldVisitor visitor mergedVisitor)"
  have d0: "distinct (new_Set (importSet oldVisitor))"
    by (simp add: new_Set_def distinct_fold_set_add)
  have s: "set ?m = set (importSet oldVisitor) \<union> set (importSet visitor)"
    by (auto simp: mergeImports_def new_Set_def set_fold_set_add)
  have d: "distinct ?m"
    using d0 by (simp add: mergeImports_def distinct_fold_set_add)
  have "fold set_add ?m (new_Set ?m) = ?m"
    using d by (simp add: new_Set_distinct fold_set_add_members)
  then have r: "importSet (mergeImports (mergeImports oldVisitor visitor mergedVisitor)
                   (mergeImports oldVisitor visitor mergedVisitor) mergedVisitor') = ?m"
    by (simp add: mergeImports_def)
  from s d r show ?thesis by simp
qed

section \<open>The short circuit\<close>

text \<open>
  C8 (short circuit). When the differ reports the old and the new visitor equal, the
  merge step returns without an error, the merged visitor is the one it was given (no
  map and no line was put into it), no file has new contents and no path was written:
  the step only logs. This holds for \<open>mergeAndGenerateIfDifferent\<close> of both variants of
  the tool, each with its own differ.
\<close>

theorem equal_visitors_skip_merge:
  "(equalVisitors oldVisitor visitor \<longrightarrow>
      (case mergeAndGenerateIfDifferent visitorFile oldVisitor visitor mergedVisitor w of
         (err, mergedVisitor', w') \<Rightarrow>
           err = None \<and> mergedVisitor' = mergedVisitor
           \<and> fileContents w' = fileContents w \<and> written w' = written w))
   \<and> (equalVisitors_second oldVisitor2 visitor2 \<longrightarrow>
      (case mergeAndGenerateIfDifferent_second visitorFile oldVisitor2 visitor2 mergedVisitor2 w of
         (err, mergedVisitor', w') \<Rightarrow>
           err = None \<and> mergedVisitor' = mergedVisitor2
           \<and> fileContents w' = fileContents w \<and> written w' = written w))"
  by (simp add: mergeAndGenerateIfDifferent_def mergeAndGenerateIfDifferent_second_def
        console_log_def)

theorem equal_visitors_skip_merge_witness:
  "equalVisitors unchanged_old unchanged_new
   \<and> equalVisitors_second (digit_visitor\<lparr>lines := [''x'']\<rparr>) digit_visitor
   \<and> (case mergeAndGenerateIfDifferent ''V.js'' unchanged_old unchanged_new new_visitor
             unchanged_world of
         (err, mergedVisitor', w') \<Rightarrow>
           err = None \<and> mergedVisitor' = new_visitor
           \<and> fileContents w' = fileContents unchanged_world \<and> written w' = [])
   \<and> (case mergeAndGenerateIfDifferent_second ''V.js'' (digit_visitor\<lparr>lines := [''x'']\<rparr>)
             digit_visitor new_visitor_imports unchanged_world of
         (err, mergedVisitor', w') \<Rightarrow>
           err = None \<and> mergedVisitor' = new_visitor_imports
           \<and> fileContents w' = fileContents unchanged_world \<and> written w' = [])"
proof -
  have a: "equalVisitors unchanged_old unchanged_new" by code_simp
  have b: "equalVisitors_second (digit_visitor\<lparr>lines := [''x'']\<rparr>) digit_visitor" by code_simp
  have c: "written unchanged_world = []" by (simp add: unchanged_world_def)
  from equal_visitors_skip_merge
    [where oldVisitor = unchanged_old and visitor = unchanged_new and visitorFile = "''V.js''"
       and mergedVisitor = new_visitor and w = unchanged_world
       and ?oldVisitor2.0 = "digit_visitor\<lparr>lines := [''x'']\<rparr>" and ?visitor2.0 = digit_visitor
       and ?mergedVisitor2.0 = new_visitor_imports] a b c
  show ?thesis by simp
qed

section \<open>Regeneration without a change\<close>

lemma parseVisitor_distinct:
  assumes "parseVisitor file new_visitor w = Inr v"
  shows "distinct (map_keys (functionMap v))"
proof -
  from assms obtain data where
    e: "populateVisitorFunctions_each (parseVisitorLines data new_visitor)
          [0..<length (lines (parseVisitorLines data new_visitor))] = Inr v"
    by (auto simp: parseVisitor_def populateVisitorFunctions_def split: option.splits)
  show ?thesis
    by (rule populate_each_distinct [OF e])
       (simp add: parseVisitorLines_def new_visitor_def map_keys_def)
qed

lemma parseVisitor_console_log [simp]:
  "parseVisitor file v (console_log msg w) = parseVisitor file v w"
  by (simp add: parseVisitor_def console_log_def)

lemma same_stubs_equalVisitors:
  assumes d0: "distinct (map_keys (functionMap v0))"
    and d1: "distinct (map_keys (functionMap v1))"
    and eq: "map_of (functionMap v0) = map_of (functionMap v1)"
  shows "equalVisitors v0 v1"
proof -
  from eq have "dom (map_of (functionMap v0)) = dom (map_of (functionMap v1))" by simp
  then have keys: "set (map_keys (functionMap v0)) = set (map_keys (functionMap v1))"
    by (simp add: dom_map_of_conv_image_fst map_keys_def)
  have "length (map_keys (functionMap v0)) = length (map_keys (functionMap v1))"
    using d0 d1 keys by (metis distinct_card)
  then have size: "map_size (functionMap v0) = map_size (functionMap v1)"
    by (simp add: map_size_def map_keys_def)
  have "list_all (\<lambda>(name, functionBody).
            case map_get (functionMap v1) name of None \<Rightarrow> False
            | Some other \<Rightarrow> prefix functionBody other) (functionMap v0)"
    unfolding list_all_iff
  proof (intro ballI)
    fix p assume p: "p \<in> set (functionMap v0)"
    obtain n b where nb: "p = (n, b)" by (cases p)
    from p nb d0 have "map_of (functionMap v0) n = Some b"
      by (simp add: map_keys_def)
    with eq have "map_get (functionMap v1) n = Some b"
      by (simp add: map_get_map_of)
    then show "case p of (name, functionBody) \<Rightarrow>
            case map_get (functionMap v1) name of None \<Rightarrow> False
            | Some other \<Rightarrow> prefix functionBody other"
      by (simp add: nb)
  qed
  with size show ?thesis
    by (simp add: equalVisitors_def equalVisitors_entries_iff)
qed

text \<open>
  C9 (idempotence of a regeneration that changes nothing). When the backup and the
  regenerated file both parse, and their maps have the same stub names with the same
  bodies, the differ reports them equal; and running the merge step twice in a row
  leaves every file with the contents it has after one run, which are the contents
  before, with nothing written.
\<close>

theorem noop_regeneration_idempotent:
  assumes old: "parseVisitor (visitorFile @ ''.old'') new_visitor w = Inr oldVisitor"
    and new: "parseVisitor visitorFile new_visitor w = Inr visitor"
    and same: "map_of (functionMap oldVisitor) = map_of (functionMap visitor)"
  shows "equalVisitors oldVisitor visitor
     \<and> (case mergeOldVisitorContentsIfDifferent visitorFile w of
          (err1, w1) \<Rightarrow>
            (case mergeOldVisitorContentsIfDifferent visitorFile w1 of
               (err2, w2) \<Rightarrow>
                 err1 = None \<and> err2 = None
                 \<and> fileContents w2 = fileContents w1 \<and> fileContents w1 = fileContents w
                 \<and> written w2 = written w))"
proof -
  have eq: "equalVisitors oldVisitor visitor"
    by (rule same_stubs_equalVisitors
          [OF parseVisitor_distinct [OF old] parseVisitor_distinct [OF new] same])
  let ?msg = "''No difference between old visitor and new visitor. Skipping merge...''"
  have once: "\<And>w'. fileContents w' = fileContents w \<Longrightarrow>
      mergeOldVisitorContentsIfDifferent visitorFile w' = (None, console_log ?msg w')"
  proof -
    fix w' :: world
    assume f: "fileContents w' = fileContents w"
    then have "parseVisitor (visitorFile @ ''.old'') new_visitor w' = Inr oldVisitor"
      and "parseVisitor visitorFile new_visitor w' = Inr visitor"
      using old new by (simp_all add: parseVisitor_def)
    then show "mergeOldVisitorContentsIfDifferent visitorFile w' = (None, console_log ?msg w')"
      using eq by (simp add: mergeOldVisitorContentsIfDifferent_def
          mergeAndGenerateIfDifferent_def)
  qed
  have first: "mergeOldVisitorContentsIfDifferent visitorFile w = (None, console_log ?msg w)"
    by (rule once) simp
  have second: "mergeOldVisitorContentsIfDifferent visitorFile (console_log ?msg w)
      = (None, console_log ?msg (console_log ?msg w))"
    by (rule once) (simp add: console_log_def)
  from eq first second show ?thesis
    by (simp add: console_log_def)
qed

theorem noop_regeneration_idempotent_witness:
  "equalVisitors unchanged_old unchanged_new
     \<and> (case mergeOldVisitorContentsIfDifferent ''V.js'' unchanged_world of
          (err1, w1) \<Rightarrow>
            (case mergeOldVisitorContentsIfDifferent ''V.js'' w1 of
               (err2, w2) \<Rightarrow>
                 err1 = None \<and> err2 = None
                 \<and> fileContents w2 = fileContents w1
                 \<and> fileContents w1 = fileContents unchanged_world
                 \<and> written w2 = written unchanged_world))"
proof -
  have old: "parseVisitor (''V.js'' @ ''.old'') new_visitor unchanged_world = Inr unchanged_old"
    by code_simp
  have new: "parseVisitor ''V.js'' new_visitor unchanged_world = Inr unchanged_new"
    by code_simp
  have same: "map_of (functionMap unchanged_old) = map_of (functionMap unchanged_new)"
    by (simp add: unchanged_old_def unchanged_new_def)
  from noop_regeneration_idempotent [OF old new same] show ?thesis .
qed

section \<open>Extraction of a stub body\<close>

















section \<open>What the serializer replaces\<close>

lemma mergeLines_step_at:
  "mergeLines_step fs (length pre) (pre @ line # rest) =
     pre @ (if str_includes line functionMarker
            then line # spliceItems (map_get fs (functionName line)) @ drop 1 rest
            else line # rest)"
  by (simp add: mergeLines_step_def splice_def Let_def nth_append)

lemma mergeLines_loop_spliceBodies:
  "mergeLines_loop fs (length pre) (pre @ spliceBodies fs post) = spliceBodies fs (pre @ post)"
proof (induction pre arbitrary: post rule: rev_induct)
  case Nil
  show ?case by simp
next
  case (snoc line pre)
  have "mergeLines_loop fs (length (pre @ [line])) ((pre @ [line]) @ spliceBodies fs post)
      = mergeLines_loop fs (length pre)
          (mergeLines_step fs (length pre) (pre @ line # spliceBodies fs post))"
    by simp
  also have "mergeLines_step fs (length pre) (pre @ line # spliceBodies fs post)
      = pre @ spliceBodies fs (line # post)"
    by (simp add: mergeLines_step_at)
  also have "mergeLines_loop fs (length pre) (pre @ spliceBodies fs (line # post))
      = spliceBodies fs (pre @ line # post)"
    by (rule snoc.IH)
  finally show ?case by simp
qed

lemma mergeLines_loop_all:
  "mergeLines_loop fs (length ls) ls = spliceBodies fs ls"
  using mergeLines_loop_spliceBodies [of fs ls "[]"] by simp

lemma spliceBodies_first: "take 1 (spliceBodies fs rest) = take 1 rest"
  by (cases rest) simp_all

text \<open>
  C7, as the code has it. Scanning from the last line to the first, the serializer
  removes, for every declaring line, exactly the one line that follows it, and puts the
  merged body for that stub name in its place; every other line stays, the rest of a
  longer generated body and the closing line among them. The in-place loop therefore
  gives what the forward traversal \<open>spliceBodies\<close> gives, whose dropped line is always the
  line that followed the declaration in the new file. The second variant does the same
  after putting the merged imports in place of the line at index 2.
\<close>

theorem mergeLines_replaces_one_line:
  "lines (mergeLines visitor mergedVisitor)
     = spliceBodies (functionMap mergedVisitor) (lines mergedVisitor @ lines visitor)
   \<and> functionMap (mergeLines visitor mergedVisitor) = functionMap mergedVisitor
   \<and> lines (mergeLines_imports visitor mergedVisitor2)
     = spliceBodies (functionMap mergedVisitor2)
         (splice (lines mergedVisitor2 @ lines visitor) 2 1 (importSet mergedVisitor2))
   \<and> take 1 (spliceBodies fs rest) = take 1 rest"
proof (intro conjI)
  show "lines (mergeLines visitor mergedVisitor)
     = spliceBodies (functionMap mergedVisitor) (lines mergedVisitor @ lines visitor)"
    by (simp add: mergeLines_def Let_def mergeLines_loop_all)
next
  show "functionMap (mergeLines visitor mergedVisitor) = functionMap mergedVisitor"
    by (simp add: mergeLines_def Let_def)
next
  show "lines (mergeLines_imports visitor mergedVisitor2)
     = spliceBodies (functionMap mergedVisitor2)
         (splice (lines mergedVisitor2 @ lines visitor) 2 1 (importSet mergedVisitor2))"
    by (simp add: mergeLines_imports_def Let_def mergeLines_loop_all)
next
  show "take 1 (spliceBodies fs rest) = take 1 rest"
    by (rule spliceBodies_first)
qed

text \<open>
  A generated body of two lines: the code leaves its second line in the file, where the
  specification's serializer removes the span, with or without the closing line.
\<close>

theorem mergeLines_keeps_rest_of_span:
  "lines (mergeLines twoline_visitor twoline_merged)
     = [''V.prototype.visitExpr = function(ctx) {'', ''  x();'', ''  b();'', ''};'']
   \<and> serialize_spec True twoline_visitor twoline_merged
     = [''V.prototype.visitExpr = function(ctx) {'', ''  x();'']
   \<and> serialize_spec False twoline_visitor twoline_merged
     = [''V.prototype.visitExpr = function(ctx) {'', ''  x();'', ''};'']"
  by code_simp

end
